theory Spec2Isabelle
  imports Complex_Main "HOL-Library.AList"
begin

section \<open>The cTrader connection pool: data model\<close>

text \<open>
  A shallow embedding of \<^verbatim>\<open>ctrader_connection_pool.py\<close> and of the symbol tables of
  \<^verbatim>\<open>ctrader_data_mapper.py\<close>.

  \<^item> A Python \<^verbatim>\<open>dict\<close> keeps insertion order and has no duplicate keys: it is an
    association list, read with \<open>map_of\<close>, written with \<open>AList.update\<close> (in place
    when the key exists, appended otherwise) and \<open>AList.delete\<close>.
  \<^item> A \<^verbatim>\<open>datetime\<close> is an integer number of microseconds; every call of
    \<^verbatim>\<open>datetime.now()\<close> is a separate input of the model (record \<open>io\<close>).
  \<^item> Everything the vendor SDK decides (does the handshake raise, what does
    \<^verbatim>\<open>client.send\<close> return) is an input as well.
  \<^item> An exception is a value of \<open>py_error\<close>; a method that can raise, or of which a
    claim says that it cannot, returns a sum.
  \<^item> The module constant \<^verbatim>\<open>HAS_CTRADER_API\<close> is the parameter \<open>has_api\<close>.
\<close>

type_synonym time = int

datatype py_error =
    AttributeError string
  | NameError string
  | KeyError string
  | ValueError string
  | TypeError string
  | ZeroDivisionError string
  | VendorError string


datatype host = PROTOBUF_LIVE_HOST | PROTOBUF_DEMO_HOST

datatype client = Client host

text \<open>Vendor payloads: only the fields the pool reads.\<close>

record position =
  positionId :: int
  position_symbolId :: int
  position_volume :: int

record order =
  orderId :: int
  order_symbolId :: int
  order_volume :: int

record account_info =
  info_accountId :: string
  info_balance :: int

record execution_event =
  ev_orderId :: int
  ev_position :: "int option"
  executedVolume :: int
  executionPrice :: rat

text \<open>
  The requests the pool sends with \<^verbatim>\<open>conn.client.send\<close>, with the fields it sets, and the
  fields of a response it reads.
\<close>

record new_order_req =
  req_ctidTraderAccountId :: int
  req_symbolId :: int
  req_orderType :: int
  req_tradeSide :: string
  req_volume :: int
  req_stopLoss :: "rat option"
  req_takeProfit :: "rat option"
  req_comment :: "string option"

datatype request =
    ProtoOAReconcileReq int
  | ProtoOAAccountsTokenRes
  | ProtoOANewOrderReq new_order_req
  | ProtoOAAmendPositionSLTPReq int int "rat option" "rat option"
  | ProtoOAClosePositionReq int int

record response =
  resp_position :: "position list"
  resp_order :: "order list"
  resp_executionEvent :: execution_event

text \<open>
  A key of a cache: \<^verbatim>\<open>get_positions\<close> stores under \<^verbatim>\<open>pos.positionId\<close>, an integer of
  the vendor message, while \<^verbatim>\<open>close_position\<close> looks up its argument
  \<^verbatim>\<open>position_id: str\<close>. In Python an \<^verbatim>\<open>int\<close> and a \<^verbatim>\<open>str\<close> are never equal keys.
\<close>

datatype py_key = KInt int | KStr string

text \<open>
  \<^verbatim>\<open>CTraderConnectionWrapper\<close>. The field \<open>ctid_account_id\<close> models the attribute
  \<^verbatim>\<open>conn.ctid_account_id\<close> that the pool reads: \<^verbatim>\<open>__init__\<close> does not assign it and
  \<^verbatim>\<open>connect\<close> does not store its argument, so it is \<open>None\<close> (reading it raises
  \<^verbatim>\<open>AttributeError\<close>) in every wrapper the class itself builds.
\<close>

record session =
  account_id :: string
  environment :: string
  client :: "client option"
  is_connected :: bool
  last_used :: time
  connection_count :: nat
  error_count :: nat
  positions_cache :: "(py_key \<times> position) list"
  orders_cache :: "(py_key \<times> order) list"
  account_info_cache :: "account_info option"
  cache_timestamp :: "time option"
  ctid_account_id :: "int option"

text \<open>\<^verbatim>\<open>self.stats = defaultdict(int)\<close>: the four counters the pool uses, 0 until touched.\<close>

record stats =
  connections_created :: nat
  connections_reused :: nat
  trades_executed :: nat
  errors :: nat

record mock_position =
  mock_id :: "string option"
  mock_symbol :: string

text \<open>
  The symbol tables of \<^verbatim>\<open>CTraderDataMapper\<close>. An entry of \<^verbatim>\<open>symbols.json\<close> is a dict of
  JSON values; the model has the integers and the strings, which Python never takes for
  equal keys.
\<close>

datatype jval = JInt int | JStr string

type_synonym entry = "(string \<times> jval) list"

record mapper =
  symbol_mapping :: "(string \<times> entry) list"
  reverse_symbol_mapping :: "(jval \<times> entry) list"

text \<open>
  \<^verbatim>\<open>CTraderConnectionPool\<close>. The handle of the clean-up task and the price cache are left
  out: no operation below reads or writes them.
\<close>

record pool =
  connections :: "(string \<times> session) list"
  max_connections :: int
  idle_timeout :: int
  pool_stats :: stats
  data_mapper :: mapper
  mock_positions :: "(string \<times> mock_position list) list"

text \<open>
  What the outside world answers during one call of a pool method. The clock readings:
  \<open>t_touch\<close> in \<^verbatim>\<open>update_last_used\<close>, \<open>t_scan\<close> in \<^verbatim>\<open>_remove_oldest_idle_connection\<close>,
  \<open>t_init\<close> in the wrapper's constructor, \<open>t_valid\<close> in \<^verbatim>\<open>is_cache_valid\<close>, \<open>t_store\<close>
  when a cache is written, \<open>t_mock\<close> for the id of a mock order. The vendor: does the
  handshake raise, does the vendor's \<^verbatim>\<open>disconnect\<close> raise, and what \<^verbatim>\<open>client.send\<close>
  answers to a request. \<open>int_of_str\<close> is Python's \<^verbatim>\<open>int()\<close> on a string, \<open>None\<close> where it
  raises \<^verbatim>\<open>ValueError\<close>; it is left open.
\<close>

record io =
  t_touch :: time
  t_scan :: time
  t_init :: time
  t_valid :: time
  t_store :: time
  t_mock :: time
  handshake :: "py_error option"
  disconnect_error :: "py_error option"
  reply :: "request \<Rightarrow> py_error + response"
  int_of_str :: "string \<Rightarrow> int option"

section \<open>The session wrapper\<close>

definition init_session :: "string \<Rightarrow> string \<Rightarrow> time \<Rightarrow> session" where
  "init_session acc env now =
     \<lparr> account_id = acc, environment = env, client = None, is_connected = False,
       last_used = now, connection_count = 0, error_count = 0, positions_cache = [],
       orders_cache = [], account_info_cache = None, cache_timestamp = None,
       ctid_account_id = None \<rparr>"

text \<open>
  \<^verbatim>\<open>connect\<close>: in mock mode the wrapper is marked connected. Otherwise the handshake
  (building the client, connecting, authorising the account) either succeeds or raises;
  when it raises, the error is counted on the wrapper and raised again. The result is the
  exception, if any, and the wrapper as the call leaves it.
\<close>

definition connect :: "bool \<Rightarrow> session \<Rightarrow> py_error option \<Rightarrow> py_error option \<times> session" where
  "connect has_api conn hs =
     (if \<not> has_api then (None, conn\<lparr>is_connected := True\<rparr>)
      else
        (case hs of
           None \<Rightarrow>
             (None,
              conn\<lparr>client :=
                     Some (Client (if environment conn = ''live'' then PROTOBUF_LIVE_HOST
                                   else PROTOBUF_DEMO_HOST)),
                   is_connected := True,
                   connection_count := connection_count conn + 1\<rparr>)
         | Some e \<Rightarrow>
             (Some e, conn\<lparr>error_count := error_count conn + 1, is_connected := False\<rparr>)))"

text \<open>
  \<^verbatim>\<open>disconnect\<close> never raises: an error of the vendor's \<^verbatim>\<open>disconnect\<close> is logged, and
  then the flag keeps its value.
\<close>

definition disconnect :: "session \<Rightarrow> py_error option \<Rightarrow> session" where
  "disconnect conn err =
     (if client conn \<noteq> None \<and> is_connected conn \<and> err \<noteq> None then conn
      else conn\<lparr>is_connected := False\<rparr>)"

definition update_last_used :: "session \<Rightarrow> time \<Rightarrow> session" where
  "update_last_used conn now = conn\<lparr>last_used := now\<rparr>"


section \<open>The pool: get-or-create and eviction\<close>

text \<open>
  The scan of \<^verbatim>\<open>_remove_oldest_idle_connection\<close>: \<open>oldest_key\<close> starts as \<open>None\<close>,
  \<open>oldest_time\<close> as the clock reading, and an entry replaces them when its time is
  strictly earlier.
\<close>

fun oldest_scan :: "(string \<times> session) list \<Rightarrow> string option \<Rightarrow> time \<Rightarrow> string option" where
  "oldest_scan [] oldest_key oldest_time = oldest_key"
| "oldest_scan ((key, conn) # rest) oldest_key oldest_time =
     (if last_used conn < oldest_time then oldest_scan rest (Some key) (last_used conn)
      else oldest_scan rest oldest_key oldest_time)"

text \<open>
  Returns the new pool and the entry it evicted, if any. \<^verbatim>\<open>if oldest_key:\<close> is false for
  \<open>None\<close> and for the empty string.
\<close>

definition remove_oldest_idle_connection ::
  "pool \<Rightarrow> time \<Rightarrow> py_error option \<Rightarrow> pool \<times> (string \<times> session) option" where
  "remove_oldest_idle_connection p now err =
     (if connections p = [] then (p, None)
      else
        (case oldest_scan (connections p) None now of
           None \<Rightarrow> (p, None)
         | Some oldest_key \<Rightarrow>
             (if oldest_key = [] then (p, None)
              else
                (case map_of (connections p) oldest_key of
                   None \<Rightarrow> (p, None)
                 | Some conn \<Rightarrow>
                     (p\<lparr>connections := AList.delete oldest_key (connections p)\<rparr>,
                      Some (oldest_key, disconnect conn err))))))"

definition conn_key_of :: "string \<Rightarrow> string \<Rightarrow> string" where
  "conn_key_of acc env = acc @ ''_'' @ env"

text \<open>\<^verbatim>\<open>if access_token and ctid_account_id\<close>: a non-empty string and a non-zero integer.\<close>

definition has_credentials :: "string option \<Rightarrow> int option \<Rightarrow> bool" where
  "has_credentials access_token ctid =
     ((case access_token of None \<Rightarrow> False | Some s \<Rightarrow> s \<noteq> []) \<and>
      (case ctid of None \<Rightarrow> False | Some n \<Rightarrow> n \<noteq> 0))"

definition bump_created :: "stats \<Rightarrow> stats" where
  "bump_created s = s\<lparr>connections_created := connections_created s + 1\<rparr>"

definition bump_reused :: "stats \<Rightarrow> stats" where
  "bump_reused s = s\<lparr>connections_reused := connections_reused s + 1\<rparr>"



text \<open>\<^verbatim>\<open># Check connection limit\<close>: at or above the limit, one eviction is attempted.\<close>

definition check_connection_limit :: "pool \<Rightarrow> io \<Rightarrow> pool" where
  "check_connection_limit p w =
     (if max_connections p \<le> int (length (connections p))
      then fst (remove_oldest_idle_connection p (t_scan w) (disconnect_error w))
      else p)"

text \<open>
  The second half of \<^verbatim>\<open>get_connection\<close> (from \<^verbatim>\<open># Check connection limit\<close> on), run on
  the pool \<open>p\<close> from which a stale entry of the key has been deleted already. When
  \<^verbatim>\<open>connect\<close> raises, the exception leaves \<^verbatim>\<open>get_connection\<close>: nothing is stored and
  nothing is counted, but the eviction has happened.
\<close>

definition create_connection ::
  "bool \<Rightarrow> pool \<Rightarrow> string \<Rightarrow> string \<Rightarrow> string option \<Rightarrow> int option \<Rightarrow> io \<Rightarrow>
     (py_error + session) \<times> pool" where
  "create_connection has_api p acc env access_token ctid w =
     (let p1 = check_connection_limit p w;
          conn = init_session acc env (t_init w)
      in if has_credentials access_token ctid then
           (case connect has_api conn (handshake w) of
              (Some e, _) \<Rightarrow> (Inl e, p1)
            | (None, conn') \<Rightarrow>
                (Inr conn',
                 p1\<lparr>connections := AList.update (conn_key_of acc env) conn' (connections p1),
                    pool_stats := bump_created (pool_stats p1)\<rparr>))
         else
           (let conn' = conn\<lparr>is_connected := True\<rparr>
            in (Inr conn',
                p1\<lparr>connections := AList.update (conn_key_of acc env) conn' (connections p1)\<rparr>)))"

definition get_connection ::
  "bool \<Rightarrow> pool \<Rightarrow> string \<Rightarrow> string \<Rightarrow> string option \<Rightarrow> int option \<Rightarrow> io \<Rightarrow>
     (py_error + session) \<times> pool" where
  "get_connection has_api p acc env access_token ctid w =
     (case map_of (connections p) (conn_key_of acc env) of
        Some conn \<Rightarrow>
          (if is_connected conn then
             (let conn' = update_last_used conn (t_touch w)
              in (Inr conn',
                  p\<lparr>connections := AList.update (conn_key_of acc env) conn' (connections p),
                    pool_stats := bump_reused (pool_stats p)\<rparr>))
           else
             create_connection has_api
               (p\<lparr>connections := AList.delete (conn_key_of acc env) (connections p)\<rparr>)
               acc env access_token ctid w)
      | None \<Rightarrow> create_connection has_api p acc env access_token ctid w)"

text \<open>\<^verbatim>\<open>CTraderConnectionPool.__init__\<close>, with the symbol table the data mapper loaded.\<close>

definition init_pool :: "int \<Rightarrow> int \<Rightarrow> mapper \<Rightarrow> pool" where
  "init_pool max_conn idle m =
     \<lparr> connections = [], max_connections = max_conn, idle_timeout = idle,
       pool_stats = \<lparr> connections_created = 0, connections_reused = 0,
                      trades_executed = 0, errors = 0 \<rparr>,
       data_mapper = m, mock_positions = [] \<rparr>"

subsection \<open>Sequences of calls\<close>

record call =
  call_account :: string
  call_environment :: string
  call_token :: "string option"
  call_ctid :: "int option"
  call_io :: io

text \<open>
  A caller that issues one \<^verbatim>\<open>get_connection\<close> after the other; an exception of one call
  reaches the caller and the pool lives on.
\<close>

fun run_calls :: "bool \<Rightarrow> pool \<Rightarrow> call list \<Rightarrow> pool" where
  "run_calls has_api p [] = p"
| "run_calls has_api p (c # cs) =
     run_calls has_api
       (snd (get_connection has_api p (call_account c) (call_environment c) (call_token c)
               (call_ctid c) (call_io c))) cs"

text \<open>
  A clock that advances: the readings of every call are strictly later than \<open>t\<close>, the
  latest reading before it.
\<close>

fun advancing :: "time \<Rightarrow> call list \<Rightarrow> bool" where
  "advancing t [] = True"
| "advancing t (c # cs) =
     (t < t_touch (call_io c) \<and> t < t_scan (call_io c) \<and> t < t_init (call_io c) \<and>
      advancing (max (t_touch (call_io c)) (max (t_scan (call_io c)) (t_init (call_io c)))) cs)"

text \<open>
  A well-formed session map at clock reading \<open>t\<close>: keys are distinct and non-empty (they
  are built by \<open>conn_key_of\<close>), no session was used after \<open>t\<close>, and the map is within
  the configured bound.
\<close>

definition pool_ok :: "time \<Rightarrow> pool \<Rightarrow> bool" where
  "pool_ok t p =
     (distinct (map fst (connections p)) \<and>
      list_all (\<lambda>(k, c). k \<noteq> [] \<and> last_used c \<le> t) (connections p) \<and>
      int (length (connections p)) \<le> max_connections p)"

section \<open>The symbol tables\<close>







section \<open>Pool statistics\<close>

text \<open>
  Python's \<^verbatim>\<open>a / b\<close> on integers: the quotient (here the exact rational; Python rounds it
  to the nearest float), or \<^verbatim>\<open>ZeroDivisionError\<close>.
\<close>

definition py_truediv :: "int \<Rightarrow> int \<Rightarrow> py_error + rat" where
  "py_truediv a b =
     (if b = 0 then Inl (ZeroDivisionError ''division by zero'') else Inr (of_int a / of_int b))"

record pool_stats_view =
  connectionsCreated :: nat
  connectionsReused :: nat
  tradesExecuted :: nat
  errors_view :: nat
  activeConnections :: nat
  reuse_ratio :: rat

definition get_stats :: "pool \<Rightarrow> py_error + pool_stats_view" where
  "get_stats p =
     (case py_truediv (int (connections_reused (pool_stats p)))
             (max 1 (int (connections_created (pool_stats p)))) of
        Inl e \<Rightarrow> Inl e
      | Inr ratio \<Rightarrow>
          Inr \<lparr> connectionsCreated = connections_created (pool_stats p),
                connectionsReused = connections_reused (pool_stats p),
                tradesExecuted = trades_executed (pool_stats p),
                errors_view = errors (pool_stats p),
                activeConnections = length (connections p),
                reuse_ratio = ratio \<rparr>)"

section \<open>Operations through a pooled session\<close>







subsection \<open>Queries\<close>








subsection \<open>Trading\<close>




















section \<open>Example inputs\<close>

text \<open>
  A pool without symbols; a world in which every clock reading of the call is \<open>t\<close>, the
  handshake and the disconnect succeed, every request to the vendor times out and no
  string is read as a number; and a call without credentials for the \<^verbatim>\<open>demo\<close>
  environment, as the pool's own operations issue it.
\<close>

definition no_symbols :: mapper where
  "no_symbols = \<lparr> symbol_mapping = [], reverse_symbol_mapping = [] \<rparr>"

definition io_at :: "time \<Rightarrow> io" where
  "io_at t = \<lparr> t_touch = t, t_scan = t, t_init = t, t_valid = t, t_store = t, t_mock = t,
               handshake = None, disconnect_error = None,
               reply = (\<lambda>req. Inl (VendorError ''timeout'')), int_of_str = (\<lambda>s. None) \<rparr>"

definition plain_call :: "string \<Rightarrow> time \<Rightarrow> call" where
  "plain_call acc t = \<lparr> call_account = acc, call_environment = ''demo'', call_token = None,
                         call_ctid = None, call_io = io_at t \<rparr>"

lemmas eval_defs = io_at_def plain_call_def init_pool_def get_connection_def create_connection_def
  check_connection_limit_def remove_oldest_idle_connection_def conn_key_of_def has_credentials_def
  init_session_def connect_def disconnect_def update_last_used_def bump_created_def bump_reused_def
  Let_def

text \<open>A session as a call without credentials leaves it, and a pool holding given sessions.\<close>

definition connected_session :: "string \<Rightarrow> time \<Rightarrow> session" where
  "connected_session acc t = (init_session acc ''demo'' t)\<lparr>is_connected := True\<rparr>"

definition pool_holding :: "int \<Rightarrow> (string \<times> session) list \<Rightarrow> pool" where
  "pool_holding max_conn conns = (init_pool max_conn 300 no_symbols)\<lparr>connections := conns\<rparr>"

text \<open>The same world, but the vendor handshake raises.\<close>

definition refusing :: "io \<Rightarrow> io" where
  "refusing w = w\<lparr>handshake := Some (VendorError ''connection refused'')\<rparr>"

lemmas more_eval_defs = connected_session_def pool_holding_def refusing_def





















section \<open>Properties of get-or-create and eviction\<close>

lemma remove_oldest_stats:
  "pool_stats (fst (remove_oldest_idle_connection p now err)) = pool_stats p"
  by (simp add: remove_oldest_idle_connection_def split: option.splits)

lemma remove_oldest_max:
  "max_connections (fst (remove_oldest_idle_connection p now err)) = max_connections p"
  by (simp add: remove_oldest_idle_connection_def split: option.splits)

lemma check_limit_stats: "pool_stats (check_connection_limit p w) = pool_stats p"
  by (simp add: check_connection_limit_def remove_oldest_stats)

lemma check_limit_max: "max_connections (check_connection_limit p w) = max_connections p"
  by (simp add: check_connection_limit_def remove_oldest_max)



lemma remove_oldest_absent:
  "map_of (connections p) k = None \<Longrightarrow>
   map_of (connections (fst (remove_oldest_idle_connection p now err))) k = None"
  by (auto simp add: remove_oldest_idle_connection_def AList.delete_conv' split: option.splits)

lemma check_limit_absent:
  "map_of (connections p) k = None \<Longrightarrow> map_of (connections (check_connection_limit p w)) k = None"
  by (simp add: check_connection_limit_def remove_oldest_absent)

lemma oldest_scan_cases:
  "(oldest_scan xs k t = k \<and> (\<forall>(key, c) \<in> set xs. t \<le> last_used c)) \<or>
   (\<exists>key c. oldest_scan xs k t = Some key \<and> (key, c) \<in> set xs \<and> last_used c < t \<and>
        (\<forall>(k', c') \<in> set xs. last_used c \<le> last_used c'))"
proof (induction xs arbitrary: k t)
  case Nil
  then show ?case by simp
next
  case (Cons a xs)
  obtain key conn where a: "a = (key, conn)" by (cases a)
  show ?case
  proof (cases "last_used conn < t")
    case True
    from Cons.IH [of "Some key" "last_used conn"] show ?thesis
    proof
      assume "oldest_scan xs (Some key) (last_used conn) = Some key \<and>
              (\<forall>(key, c) \<in> set xs. last_used conn \<le> last_used c)"
      with True a show ?thesis by auto
    next
      assume "\<exists>k' c. oldest_scan xs (Some key) (last_used conn) = Some k' \<and> (k', c) \<in> set xs \<and>
                last_used c < last_used conn \<and> (\<forall>(k', c') \<in> set xs. last_used c \<le> last_used c')"
      then obtain k' c where h: "oldest_scan xs (Some key) (last_used conn) = Some k'"
        "(k', c) \<in> set xs" "last_used c < last_used conn"
        "\<forall>(k', c') \<in> set xs. last_used c \<le> last_used c'" by blast
      have "oldest_scan (a # xs) k t = Some k' \<and> (k', c) \<in> set (a # xs) \<and> last_used c < t \<and>
            (\<forall>(k', c') \<in> set (a # xs). last_used c \<le> last_used c')"
        using h True a by auto
      then show ?thesis by blast
    qed
  next
    case False
    from Cons.IH [of k t] show ?thesis
    proof
      assume "oldest_scan xs k t = k \<and> (\<forall>(key, c) \<in> set xs. t \<le> last_used c)"
      with False a show ?thesis by auto
    next
      assume "\<exists>k' c. oldest_scan xs k t = Some k' \<and> (k', c) \<in> set xs \<and>
                last_used c < t \<and> (\<forall>(k', c') \<in> set xs. last_used c \<le> last_used c')"
      then obtain k' c where h: "oldest_scan xs k t = Some k'"
        "(k', c) \<in> set xs" "last_used c < t"
        "\<forall>(k', c') \<in> set xs. last_used c \<le> last_used c'" by blast
      have "oldest_scan (a # xs) k t = Some k' \<and> (k', c) \<in> set (a # xs) \<and> last_used c < t \<and>
            (\<forall>(k', c') \<in> set (a # xs). last_used c \<le> last_used c')"
        using h False a by auto
      then show ?thesis by blast
    qed
  qed
qed

lemma oldest_scan_finds:
  assumes "xs \<noteq> []" "\<forall>(key, c) \<in> set xs. last_used c < t"
  shows "\<exists>key c. oldest_scan xs None t = Some key \<and> (key, c) \<in> set xs \<and>
           (\<forall>(k', c') \<in> set xs. last_used c \<le> last_used c')"
proof -
  from assms obtain k0 c0 where "(k0, c0) \<in> set xs" by (cases xs) auto
  with assms(2) have "\<not> (\<forall>(key, c) \<in> set xs. t \<le> last_used c)" by fastforce
  with oldest_scan_cases [of xs None t] show ?thesis by blast
qed

lemma length_delete_present:
  "distinct (map fst al) \<Longrightarrow> (k, v) \<in> set al \<Longrightarrow> Suc (length (AList.delete k al)) = length al"
proof (induction al)
  case Nil
  then show ?case by simp
next
  case (Cons a al)
  show ?case
  proof (cases "fst a = k")
    case True
    with Cons.prems have "k \<notin> fst ` set al" by auto
    then have "AList.delete k al = al" by (simp add: AList.delete_id)
    with True show ?thesis by (cases a) (simp add: AList.delete_eq)
  next
    case False
    with Cons show ?thesis by (auto simp: AList.delete_eq)
  qed
qed

lemma set_update_subset: "set (AList.update k v al) \<subseteq> insert (k, v) (set al)"
  by (induction al) auto

lemma length_update_absent:
  "map_of al k = None \<Longrightarrow> length (AList.update k v al) = Suc (length al)"
  by (induction al) (auto split: if_splits)

lemma length_update_present:
  "map_of al k = Some v' \<Longrightarrow> length (AList.update k v al) = length al"
  by (induction al) (auto split: if_splits)

lemma set_delete_subset: "set (AList.delete k al) \<subseteq> set al"
  by (auto simp: AList.delete_eq)

lemma map_of_delete_same: "map_of (AList.delete k al) k = None"
  by (simp add: AList.delete_conv')

lemma remove_oldest_evicts:
  assumes ne: "connections p \<noteq> []"
    and d: "distinct (map fst (connections p))"
    and old: "\<forall>(k, c) \<in> set (connections p). k \<noteq> [] \<and> last_used c < now"
  shows "\<exists>k c. remove_oldest_idle_connection p now err =
             (p\<lparr>connections := AList.delete k (connections p)\<rparr>, Some (k, disconnect c err)) \<and>
           (k, c) \<in> set (connections p) \<and>
           (\<forall>(k', c') \<in> set (connections p). last_used c \<le> last_used c') \<and>
           Suc (length (AList.delete k (connections p))) = length (connections p)"
proof -
  from old have "\<forall>(k, c) \<in> set (connections p). last_used c < now" by auto
  from oldest_scan_finds [OF ne this]
  obtain k c where scan: "oldest_scan (connections p) None now = Some k"
    and mem: "(k, c) \<in> set (connections p)"
    and least: "\<forall>(k', c') \<in> set (connections p). last_used c \<le> last_used c'" by blast
  from mem old have k: "k \<noteq> []" by auto
  from mem d have look: "map_of (connections p) k = Some c" by simp
  have "remove_oldest_idle_connection p now err =
          (p\<lparr>connections := AList.delete k (connections p)\<rparr>, Some (k, disconnect c err))"
    using ne scan k look by (simp add: remove_oldest_idle_connection_def)
  moreover have "Suc (length (AList.delete k (connections p))) = length (connections p)"
    using d mem by (rule length_delete_present)
  ultimately show ?thesis using mem least by blast
qed

lemma pool_ok_mono: "pool_ok t p \<Longrightarrow> t \<le> t' \<Longrightarrow> pool_ok t' p"
  by (auto simp: pool_ok_def list_all_iff)

lemma conn_key_nonempty: "conn_key_of acc env \<noteq> []"
  by (simp add: conn_key_of_def)

text \<open>After the limit check of a pool within its bound, there is room for one more.\<close>

lemma check_limit_room:
  assumes ok: "pool_ok t p" and m: "1 \<le> max_connections p" and ts: "t < t_scan w"
  shows "pool_ok t (check_connection_limit p w) \<and>
         int (length (connections (check_connection_limit p w))) < max_connections p"
proof (cases "max_connections p \<le> int (length (connections p))")
  case False
  then show ?thesis using ok by (simp add: check_connection_limit_def)
next
  case True
  with m have ne: "connections p \<noteq> []" by auto
  from ok have d: "distinct (map fst (connections p))" by (simp add: pool_ok_def)
  from ok ts have old: "\<forall>(k, c) \<in> set (connections p). k \<noteq> [] \<and> last_used c < t_scan w"
    by (auto simp: pool_ok_def list_all_iff)
  from remove_oldest_evicts [OF ne d old, of "disconnect_error w"]
  obtain k c where ev: "remove_oldest_idle_connection p (t_scan w) (disconnect_error w) =
             (p\<lparr>connections := AList.delete k (connections p)\<rparr>, Some (k, disconnect c (disconnect_error w)))"
    and len: "Suc (length (AList.delete k (connections p))) = length (connections p)" by blast
  have eq: "check_connection_limit p w = p\<lparr>connections := AList.delete k (connections p)\<rparr>"
    using True ev by (simp add: check_connection_limit_def)
  from ok have le: "int (length (connections p)) \<le> max_connections p" by (simp add: pool_ok_def)
  have "pool_ok t (p\<lparr>connections := AList.delete k (connections p)\<rparr>)"
    using ok len set_delete_subset [of k "connections p"]
    by (auto simp: pool_ok_def list_all_iff AList.distinct_delete)
  moreover have "int (length (AList.delete k (connections p))) < max_connections p"
    using len le by linarith
  ultimately show ?thesis using eq by simp
qed

lemma store_new_ok:
  assumes ok: "pool_ok t p1" and room: "int (length (connections p1)) < max_connections p1"
    and absent: "map_of (connections p1) k = None" and k: "k \<noteq> []"
    and lu: "last_used c \<le> t"
  shows "pool_ok t (p1\<lparr>connections := AList.update k c (connections p1)\<rparr>)"
    and "pool_ok t (p1\<lparr>connections := AList.update k c (connections p1), pool_stats := s\<rparr>)"
  using ok room k lu set_update_subset [of k c "connections p1"] length_update_absent [OF absent, of c]
  by (auto simp: pool_ok_def list_all_iff AList.distinct_update)

lemma create_connection_ok:
  assumes ok: "pool_ok t p" and m: "1 \<le> max_connections p"
    and ts: "t < t_scan w" and ti: "t < t_init w"
    and absent: "map_of (connections p) (conn_key_of acc env) = None"
  shows "pool_ok (max t (t_init w)) (snd (create_connection has_api p acc env tok ctid w))"
proof -
  let ?p1 = "check_connection_limit p w"
  let ?t = "max t (t_init w)"
  from check_limit_room [OF ok m ts]
  have ok1: "pool_ok t ?p1" and room: "int (length (connections ?p1)) < max_connections ?p1"
    by (simp_all add: check_limit_max)
  from ok1 have ok1': "pool_ok ?t ?p1" by (rule pool_ok_mono) simp
  have abs1: "map_of (connections ?p1) (conn_key_of acc env) = None"
    using absent by (rule check_limit_absent)
  note st = store_new_ok [OF ok1' room abs1 conn_key_nonempty]
  show ?thesis
  proof (cases "has_credentials tok ctid")
    case False
    have "last_used ((init_session acc env (t_init w))\<lparr>is_connected := True\<rparr>) \<le> ?t"
      by (simp add: init_session_def)
    from st(1) [OF this] False show ?thesis
      by (simp add: create_connection_def Let_def)
  next
    case True
    show ?thesis
    proof (cases "connect has_api (init_session acc env (t_init w)) (handshake w)")
      case (Pair r c)
      have lc: "last_used c \<le> ?t"
        using Pair by (auto simp: connect_def init_session_def split: if_splits option.splits)
      show ?thesis
      proof (cases r)
        case None
        with st(2) [OF lc] True Pair show ?thesis
          by (simp add: create_connection_def Let_def)
      next
        case (Some e)
        with ok1' True Pair show ?thesis
          by (simp add: create_connection_def Let_def)
      qed
    qed
  qed
qed

lemma get_connection_max:
  "max_connections (snd (get_connection has_api p acc env tok ctid w)) = max_connections p"
  by (auto simp: get_connection_def create_connection_def Let_def check_limit_max
      split: option.splits prod.splits)

lemma get_connection_ok:
  assumes ok: "pool_ok t p" and m: "1 \<le> max_connections p"
    and tt: "t < t_touch w" and ts: "t < t_scan w" and ti: "t < t_init w"
  shows "pool_ok (max (t_touch w) (max (t_scan w) (t_init w)))
           (snd (get_connection has_api p acc env tok ctid w))"
proof -
  let ?k = "conn_key_of acc env"
  let ?T = "max (t_touch w) (max (t_scan w) (t_init w))"
  show ?thesis
  proof (cases "map_of (connections p) ?k")
    case None
    from create_connection_ok [OF ok m ts ti None]
    have "pool_ok (max t (t_init w)) (snd (create_connection has_api p acc env tok ctid w))" .
    then have "pool_ok ?T (snd (create_connection has_api p acc env tok ctid w))"
      by (rule pool_ok_mono) (use ti in simp)
    with None show ?thesis by (simp add: get_connection_def)
  next
    case (Some conn)
    show ?thesis
    proof (cases "is_connected conn")
      case True
      have "pool_ok ?T (p\<lparr>connections := AList.update ?k (update_last_used conn (t_touch w)) (connections p),
                            pool_stats := bump_reused (pool_stats p)\<rparr>)"
        using ok tt ts ti set_update_subset [of ?k "update_last_used conn (t_touch w)" "connections p"]
          length_update_present [OF Some, of "update_last_used conn (t_touch w)"]
          conn_key_nonempty [of acc env]
        by (fastforce simp: pool_ok_def list_all_iff AList.distinct_update update_last_used_def)
      with Some True show ?thesis by (simp add: get_connection_def Let_def)
    next
      case False
      let ?p0 = "p\<lparr>connections := AList.delete ?k (connections p)\<rparr>"
      have ok0: "pool_ok t ?p0"
        using ok set_delete_subset [of ?k "connections p"] AList.length_delete_le [of ?k "connections p"]
        by (auto simp: pool_ok_def list_all_iff AList.distinct_delete)
      have abs0: "map_of (connections ?p0) ?k = None" by (simp add: map_of_delete_same)
      have m0: "1 \<le> max_connections ?p0" using m by simp
      from create_connection_ok [OF ok0 m0 ts ti abs0]
      have "pool_ok (max t (t_init w)) (snd (create_connection has_api ?p0 acc env tok ctid w))" .
      then have "pool_ok ?T (snd (create_connection has_api ?p0 acc env tok ctid w))"
        by (rule pool_ok_mono) (use ti in simp)
      with Some False show ?thesis by (simp add: get_connection_def)
    qed
  qed
qed

lemma update_absent_append: "map_of al k = None \<Longrightarrow> AList.update k v al = al @ [(k, v)]"
  by (induction al) (auto split: if_splits)

lemma run_calls_ok_append:
  "pool_ok t p \<Longrightarrow> 1 \<le> max_connections p \<Longrightarrow> advancing t (cs @ cs') \<Longrightarrow>
   \<exists>t'. pool_ok t' (run_calls has_api p cs) \<and> advancing t' cs' \<and>
        max_connections (run_calls has_api p cs) = max_connections p"
proof (induction cs arbitrary: t p)
  case Nil
  then show ?case by auto
next
  case (Cons c cs)
  let ?w = "call_io c"
  let ?p' = "snd (get_connection has_api p (call_account c) (call_environment c) (call_token c)
               (call_ctid c) ?w)"
  let ?T = "max (t_touch ?w) (max (t_scan ?w) (t_init ?w))"
  from Cons.prems have tt: "t < t_touch ?w" and ts: "t < t_scan ?w" and ti: "t < t_init ?w"
    and adv: "advancing ?T (cs @ cs')" by simp_all
  have ok': "pool_ok ?T ?p'" using Cons.prems(1,2) tt ts ti by (rule get_connection_ok)
  have m': "max_connections ?p' = max_connections p" by (rule get_connection_max)
  from Cons.IH [OF ok' _ adv] m' Cons.prems(2) show ?case by simp
qed

lemma create_connection_shape:
  assumes absent: "map_of (connections p) (conn_key_of acc env) = None"
  shows "connections (snd (create_connection has_api p acc env tok ctid w)) =
           connections (check_connection_limit p w) @
             (case fst (create_connection has_api p acc env tok ctid w) of
                Inl e \<Rightarrow> [] | Inr conn' \<Rightarrow> [(conn_key_of acc env, conn')])"
  using update_absent_append [OF check_limit_absent [OF absent, of w]]
  by (auto simp: create_connection_def Let_def split: prod.splits option.splits)

subsection \<open>C1: the bound on the number of sessions\<close>

text \<open>
  C1, as amended. Take a pool whose map is within its bound, with a maximum of at least
  one, and a clock that advances from call to call. Then after every sequence of
  \<^verbatim>\<open>get_connection\<close> calls (\<open>cs\<close>, and \<open>cs\<close> followed by \<open>c\<close>) the map holds at most
  the maximum number of sessions. When the call \<open>c\<close> arrives with a key that is not in
  the map while the map holds exactly the maximum, \<^verbatim>\<open>_remove_oldest_idle_connection\<close>
  evicts exactly one stored session \<open>s\<close>, no stored session has an earlier last-used
  time than \<open>s\<close>, and the new session (if the connect does not raise) is appended to
  what is left.
\<close>

theorem bound_holds_with_advancing_clock:
  assumes ok: "pool_ok t p0" and m: "1 \<le> max_connections p0"
    and adv: "advancing t (cs @ [c])"
  shows "(let p = run_calls has_api p0 cs;
              key = conn_key_of (call_account c) (call_environment c);
              r = get_connection has_api p (call_account c) (call_environment c) (call_token c)
                    (call_ctid c) (call_io c)
          in int (length (connections p)) \<le> max_connections p0 \<and>
             int (length (connections (snd r))) \<le> max_connections p0 \<and>
             (map_of (connections p) key = None \<and>
              int (length (connections p)) = max_connections p0 \<longrightarrow>
                (\<exists>k s. (k, s) \<in> set (connections p) \<and>
                   (\<forall>(k', s') \<in> set (connections p). last_used s \<le> last_used s') \<and>
                   remove_oldest_idle_connection p (t_scan (call_io c)) (disconnect_error (call_io c)) =
                     (p\<lparr>connections := AList.delete k (connections p)\<rparr>,
                      Some (k, disconnect s (disconnect_error (call_io c)))) \<and>
                   Suc (length (AList.delete k (connections p))) = length (connections p) \<and>
                   connections (snd r) =
                     AList.delete k (connections p) @
                       (case fst r of Inl e \<Rightarrow> [] | Inr conn' \<Rightarrow> [(key, conn')]))))"
proof -
  let ?p = "run_calls has_api p0 cs"
  let ?w = "call_io c"
  let ?key = "conn_key_of (call_account c) (call_environment c)"
  let ?r = "get_connection has_api ?p (call_account c) (call_environment c) (call_token c)
              (call_ctid c) ?w"
  from run_calls_ok_append [OF ok m adv, of has_api]
  obtain t' where ok': "pool_ok t' ?p" and adv': "advancing t' [c]"
    and m': "max_connections ?p = max_connections p0" by blast
  from adv' have tt: "t' < t_touch ?w" and ts: "t' < t_scan ?w" and ti: "t' < t_init ?w" by simp_all
  have b1: "int (length (connections ?p)) \<le> max_connections p0"
    using ok' m' by (simp add: pool_ok_def)
  have m1: "1 \<le> max_connections ?p" using m m' by simp
  have "pool_ok (max (t_touch ?w) (max (t_scan ?w) (t_init ?w))) (snd ?r)"
    using ok' m1 tt ts ti by (rule get_connection_ok)
  then have b2: "int (length (connections (snd ?r))) \<le> max_connections p0"
    using m' by (simp add: pool_ok_def get_connection_max)
  have b3: "\<exists>k s. (k, s) \<in> set (connections ?p) \<and>
                   (\<forall>(k', s') \<in> set (connections ?p). last_used s \<le> last_used s') \<and>
                   remove_oldest_idle_connection ?p (t_scan ?w) (disconnect_error ?w) =
                     (?p\<lparr>connections := AList.delete k (connections ?p)\<rparr>,
                      Some (k, disconnect s (disconnect_error ?w))) \<and>
                   Suc (length (AList.delete k (connections ?p))) = length (connections ?p) \<and>
                   connections (snd ?r) =
                     AList.delete k (connections ?p) @
                       (case fst ?r of Inl e \<Rightarrow> [] | Inr conn' \<Rightarrow> [(?key, conn')])"
    if absent: "map_of (connections ?p) ?key = None"
      and full: "int (length (connections ?p)) = max_connections p0"
  proof -
    from full m have ne: "connections ?p \<noteq> []" by auto
    from ok' have d: "distinct (map fst (connections ?p))" by (simp add: pool_ok_def)
    from ok' ts have old: "\<forall>(k, c) \<in> set (connections ?p). k \<noteq> [] \<and> last_used c < t_scan ?w"
      by (auto simp: pool_ok_def list_all_iff)
    from remove_oldest_evicts [OF ne d old, of "disconnect_error ?w"]
    obtain k s where mem: "(k, s) \<in> set (connections ?p)"
      and least: "\<forall>(k', s') \<in> set (connections ?p). last_used s \<le> last_used s'"
      and ev: "remove_oldest_idle_connection ?p (t_scan ?w) (disconnect_error ?w) =
                 (?p\<lparr>connections := AList.delete k (connections ?p)\<rparr>,
                  Some (k, disconnect s (disconnect_error ?w)))"
      and len: "Suc (length (AList.delete k (connections ?p))) = length (connections ?p)"
      by blast
    have lim: "connections (check_connection_limit ?p ?w) = AList.delete k (connections ?p)"
      using full m' ev by (simp add: check_connection_limit_def)
    have r: "?r = create_connection has_api ?p (call_account c) (call_environment c)
                    (call_token c) (call_ctid c) ?w"
      using absent by (simp add: get_connection_def)
    have "connections (snd ?r) =
            AList.delete k (connections ?p) @
              (case fst ?r of Inl e \<Rightarrow> [] | Inr conn' \<Rightarrow> [(?key, conn')])"
      unfolding r using create_connection_shape [OF absent] lim by simp
    with mem least ev len show ?thesis by blast
  qed
  from b1 b2 b3 show ?thesis unfolding Let_def by blast
qed

text \<open>
  C1, witness: a pool of size one, a first call for account A at time 1 and a second for
  account B at time 2; the second call evicts A.
\<close>

theorem bound_holds_witness:
  "pool_ok 0 (init_pool 1 300 no_symbols) \<and> 1 \<le> max_connections (init_pool 1 300 no_symbols) \<and>
   advancing 0 ([plain_call ''A'' 1] @ [plain_call ''B'' 2]) \<and>
   map fst (connections (run_calls True (init_pool 1 300 no_symbols) [plain_call ''A'' 1])) = [''A_demo''] \<and>
   map fst (connections (run_calls True (init_pool 1 300 no_symbols) [plain_call ''A'' 1, plain_call ''B'' 2]))
     = [''B_demo'']"
proof -
  have h1: "pool_ok 0 (init_pool 1 300 no_symbols)" by (simp add: pool_ok_def init_pool_def)
  have h2: "1 \<le> max_connections (init_pool 1 300 no_symbols)" by (simp add: init_pool_def)
  have h3: "advancing 0 ([plain_call ''A'' 1] @ [plain_call ''B'' 2])"
    by (simp add: plain_call_def io_at_def)
  have e: "run_calls True (init_pool 1 300 no_symbols) [plain_call ''A'' 1] =
        (init_pool 1 300 no_symbols)\<lparr>connections := [(''A_demo'', (init_session ''A'' ''demo'' 1)\<lparr>is_connected := True\<rparr>)]\<rparr>"
    by (simp add: eval_defs)
  show ?thesis
    using h1 h2 h3 bound_holds_with_advancing_clock [OF h1 h2 h3, of True]
    by (simp add: e) (simp add: eval_defs pool_ok_def)
qed

text \<open>
  C1, counterexample to the claim as stated. With a maximum of 0 the map is empty when the
  limit is checked, nothing can be evicted and the first session is stored. With a maximum
  of 1 and a clock that returns the same reading to the constructor of A and to the scan
  of the next call, no stored time is strictly earlier than the scan's starting time, the
  scan finds no key, and B is stored next to A.
\<close>

theorem bound_fails_counterexample:
  "max_connections (init_pool 0 300 no_symbols) = 0 \<and>
   length (connections (run_calls True (init_pool 0 300 no_symbols) [plain_call ''A'' 1])) = 1 \<and>
   max_connections (init_pool 1 300 no_symbols) = 1 \<and>
   length (connections
     (run_calls True (init_pool 1 300 no_symbols) [plain_call ''A'' 1, plain_call ''B'' 1])) = 2"
  by (simp add: eval_defs)

lemma get_connection_create_path:
  "\<not> (\<exists>conn. map_of (connections p) (conn_key_of acc env) = Some conn \<and> is_connected conn) \<Longrightarrow>
   get_connection has_api p acc env tok ctid w =
     create_connection has_api
       (p\<lparr>connections := AList.delete (conn_key_of acc env) (connections p)\<rparr>) acc env tok ctid w"
proof (cases "map_of (connections p) (conn_key_of acc env)")
  case None
  then have "AList.delete (conn_key_of acc env) (connections p) = connections p"
    by (simp add: AList.delete_id map_of_eq_None_iff)
  with None show ?thesis by (simp add: get_connection_def)
next
  case (Some conn)
  assume "\<not> (\<exists>conn. map_of (connections p) (conn_key_of acc env) = Some conn \<and> is_connected conn)"
  with Some show ?thesis by (simp add: get_connection_def)
qed





subsection \<open>C5: a key that is already in the map\<close>



subsection \<open>C4: the creation counter\<close>

text \<open>
  C4, as amended. On a call that creates a session (the key is not mapped to a connected
  session): without credentials the new session is marked connected and stored, and every
  counter of the pool, the creation counter included, keeps its value; with credentials,
  either the connect raises and the counters keep their values, or the new session is
  stored and the creation counter grows by exactly one.
\<close>

theorem creation_counted_with_credentials_only:
  assumes create: "\<not> (\<exists>conn. map_of (connections p) (conn_key_of acc env) = Some conn \<and>
                          is_connected conn)"
  shows "(let r = get_connection has_api p acc env tok ctid w; key = conn_key_of acc env
          in (\<not> has_credentials tok ctid \<longrightarrow>
                fst r = Inr ((init_session acc env (t_init w))\<lparr>is_connected := True\<rparr>) \<and>
                map_of (connections (snd r)) key =
                  Some ((init_session acc env (t_init w))\<lparr>is_connected := True\<rparr>) \<and>
                pool_stats (snd r) = pool_stats p) \<and>
             (has_credentials tok ctid \<longrightarrow>
                (case fst r of
                   Inl e \<Rightarrow> pool_stats (snd r) = pool_stats p
                 | Inr c \<Rightarrow>
                     map_of (connections (snd r)) key = Some c \<and>
                     connections_created (pool_stats (snd r)) =
                       connections_created (pool_stats p) + 1)))"
proof -
  let ?p0 = "p\<lparr>connections := AList.delete (conn_key_of acc env) (connections p)\<rparr>"
  let ?cr = "create_connection has_api ?p0 acc env tok ctid w"
  have r: "get_connection has_api p acc env tok ctid w = ?cr"
    using create by (rule get_connection_create_path)
  have A: "fst ?cr = Inr ((init_session acc env (t_init w))\<lparr>is_connected := True\<rparr>) \<and>
           map_of (connections (snd ?cr)) (conn_key_of acc env) =
             Some ((init_session acc env (t_init w))\<lparr>is_connected := True\<rparr>) \<and>
           pool_stats (snd ?cr) = pool_stats p"
    if "\<not> has_credentials tok ctid"
    using that by (simp add: create_connection_def Let_def check_limit_stats AList.update_conv')
  have B: "(case fst ?cr of
              Inl e \<Rightarrow> pool_stats (snd ?cr) = pool_stats p
            | Inr c \<Rightarrow>
                map_of (connections (snd ?cr)) (conn_key_of acc env) = Some c \<and>
                connections_created (pool_stats (snd ?cr)) = connections_created (pool_stats p) + 1)"
    if "has_credentials tok ctid"
    using that
    by (auto simp: create_connection_def Let_def check_limit_stats AList.update_conv'
        bump_created_def split: prod.splits option.splits)
  from A B show ?thesis unfolding Let_def r by blast
qed

text \<open>C4, witness: a fresh pool, asked for account A with and without credentials.\<close>

theorem creation_counted_witness:
  "\<not> (\<exists>conn. map_of (connections (init_pool 50 300 no_symbols)) (conn_key_of ''A'' ''demo'') = Some conn \<and>
            is_connected conn) \<and>
   has_credentials (Some ''token'') (Some 7) \<and>
   connections_created (pool_stats (snd (get_connection True (init_pool 50 300 no_symbols) ''A'' ''demo''
      (Some ''token'') (Some 7) (io_at 1)))) = 1 \<and>
   \<not> has_credentials None None \<and>
   connections_created (pool_stats (snd (get_connection True (init_pool 50 300 no_symbols) ''A'' ''demo''
      None None (io_at 1)))) = 0"
proof -
  have h: "\<not> (\<exists>conn. map_of (connections (init_pool 50 300 no_symbols)) (conn_key_of ''A'' ''demo'') = Some conn \<and>
            is_connected conn)"
    by (simp add: init_pool_def)
  show ?thesis
    using h
      creation_counted_with_credentials_only [OF h, of True "Some ''token''" "Some 7" "io_at 1"]
      creation_counted_with_credentials_only [OF h, of True None None "io_at 1"]
    by (simp add: eval_defs)
qed

text \<open>
  C4, counterexample to the claim as stated: a call without credentials on a fresh pool
  creates and stores a connected session, and the creation counter stays 0.
\<close>

theorem creation_not_counted_counterexample:
  "get_connection True (init_pool 50 300 no_symbols) ''A'' ''demo'' None None (io_at 1) =
     (Inr (connected_session ''A'' 1), pool_holding 50 [(''A_demo'', connected_session ''A'' 1)]) \<and>
   connections_created (pool_stats (init_pool 50 300 no_symbols)) = 0 \<and>
   connections_created (pool_stats (pool_holding 50 [(''A_demo'', connected_session ''A'' 1)])) = 0"
  by (simp add: eval_defs more_eval_defs)

subsection \<open>C10: a connect that raises\<close>




section \<open>Properties of the statistics and of the symbol tables\<close>

subsection \<open>C9: the reuse ratio\<close>

text \<open>
  C9. In every pool state \<^verbatim>\<open>get_stats\<close> returns (no \<^verbatim>\<open>ZeroDivisionError\<close>) the four
  counters, the number of sessions, and a reuse ratio that is the reuse counter divided by
  the larger of 1 and the creation counter; when both counters are 0 the ratio is 0.
\<close>

theorem get_stats_reuse_ratio:
  "get_stats p =
     Inr \<lparr> connectionsCreated = connections_created (pool_stats p),
           connectionsReused = connections_reused (pool_stats p),
           tradesExecuted = trades_executed (pool_stats p),
           errors_view = errors (pool_stats p),
           activeConnections = length (connections p),
           reuse_ratio = of_nat (connections_reused (pool_stats p)) /
                         of_nat (max 1 (connections_created (pool_stats p))) \<rparr> \<and>
   (\<exists>v. get_stats (p\<lparr>pool_stats := (pool_stats p)\<lparr>connections_created := 0,
                                                   connections_reused := 0\<rparr>\<rparr>) = Inr v \<and>
        reuse_ratio v = 0)"
  by (simp add: get_stats_def py_truediv_def max_def)

subsection \<open>C8: from a symbol to its vendor id and back\<close>







section \<open>Properties of the operations\<close>



subsection \<open>C7: a vendor failure during \<^verbatim>\<open>modify_position\<close>\<close>







subsection \<open>C2: failures of \<^verbatim>\<open>execute_trade\<close>\<close>




subsection \<open>C6: the positions cache after \<^verbatim>\<open>close_position\<close>\<close>



subsection \<open>C3: the caches of a session\<close>





end
